theory Spec2Isabelle
  imports Main "HOL-Library.Word"
begin

unbundle bit_operations_syntax

section \<open>Failures\<close>

text \<open>
  The C++ sources stop with \<^verbatim>\<open>assert\<close>. Every assertion of the modelled functions is a
  branch that returns \<open>Inl (AssertionFailed expr)\<close>, where \<open>expr\<close> is the asserted
  expression. \<open>UndefinedBehaviour\<close> marks an iterator moved past the end of its vector, and
  \<open>NullDereference\<close> a member call through a null pointer.
\<close>

datatype error =
    AssertionFailed string
  | UndefinedBehaviour string
  | NullDereference string

section \<open>The junk detector (CXXJunkDetector.cpp)\<close>

subsection \<open>What the detector reads of a mutation point\<close>

text \<open>
  Modelled from the spec: the declarations of \<^verbatim>\<open>mull::SourceLocation\<close>,
  \<^verbatim>\<open>MutatorKind\<close> and \<^verbatim>\<open>MutationPoint\<close> are not among the sources. The spec gives a
  Source Location as "either null or a (path, line, column) triple", so a point carries
  an optional triple and \<^verbatim>\<open>isNull()\<close> is \<open>None\<close>. The three kinds that \<^verbatim>\<open>isJunk\<close>
  names are constructors; every other enumerator is \<open>OtherMutator\<close>.
\<close>

record SourceLocation =
  filePath :: string
  line :: nat
  column :: nat

datatype MutatorKind =
    ConditionalsBoundaryMutator
  | MathAddMutator
  | MathSubMutator
  | OtherMutator nat

text \<open>
  \<^verbatim>\<open>point->getOriginalValue()\<close> is an \<^verbatim>\<open>llvm::Value\<close>; \<^verbatim>\<open>findAST\<close> only asks whether it
  is an instruction and, if so, for the source file name of the instruction's module.
\<close>

datatype Value =
    Instruction string
  | OtherValue

record MutationPoint =
  sourceLocation :: "SourceLocation option"
  mutatorKind :: MutatorKind
  originalValue :: Value

subsection \<open>The clang services the detector calls\<close>

text \<open>
  A \<^verbatim>\<open>clang::SourceLocation\<close> is a 32-bit identifier: zero is the invalid location and
  the top bit marks a location inside a macro expansion.
\<close>

type_synonym clang_SourceLocation = "32 word"

definition loc_isValid :: "clang_SourceLocation \<Rightarrow> bool" where
  "loc_isValid l = (l \<noteq> 0)"

definition loc_isFileID :: "clang_SourceLocation \<Rightarrow> bool" where
  "loc_isFileID l = (l AND 0x80000000 = 0)"

record clang_SourceRange =
  getBegin :: clang_SourceLocation
  getEnd :: clang_SourceLocation

text \<open>The default-constructed range: both ends invalid.\<close>

definition SourceRange_default :: clang_SourceRange where
  "SourceRange_default = \<lparr>getBegin = 0, getEnd = 0\<rparr>"

definition range_isValid :: "clang_SourceRange \<Rightarrow> bool" where
  "range_isValid r = (loc_isValid (getBegin r) \<and> loc_isValid (getEnd r))"

definition range_isInvalid :: "clang_SourceRange \<Rightarrow> bool" where
  "range_isInvalid r = (\<not> range_isValid r)"

text \<open>
  The source manager answers two questions about a location: the file it lies in and its
  offset in that file, an \<^verbatim>\<open>unsigned\<close>.
\<close>

record SourceManager =
  getFileID :: "clang_SourceLocation \<Rightarrow> int"
  getFileOffset :: "clang_SourceLocation \<Rightarrow> 32 word"

record FileEntry =
  getName :: string
  isValid :: bool

datatype BinaryOperatorKind =
    BO_LT | BO_GT | BO_LE | BO_GE
  | BO_Add | BO_Sub
  | BO_AddAssign | BO_SubAssign
  | BO_Other nat

datatype UnaryOperatorKind =
    UO_PostInc | UO_PostDec | UO_PreInc | UO_PreDec
  | UO_Other nat

definition isRelationalOp :: "BinaryOperatorKind \<Rightarrow> bool" where
  "isRelationalOp opc = (opc = BO_LT \<or> opc = BO_GT \<or> opc = BO_LE \<or> opc = BO_GE)"

definition isIncrementOp :: "UnaryOperatorKind \<Rightarrow> bool" where
  "isIncrementOp opc = (opc = UO_PreInc \<or> opc = UO_PostInc)"

definition isDecrementOp :: "UnaryOperatorKind \<Rightarrow> bool" where
  "isDecrementOp opc = (opc = UO_PreDec \<or> opc = UO_PostDec)"

text \<open>
  \<^verbatim>\<open>RecursiveASTVisitor::TraverseDecl\<close> walks the translation unit and calls the
  \<^verbatim>\<open>Visit...\<close> methods of the visitor on each node. The translation unit is the list of its
  nodes in the order of that walk.
\<close>

datatype ASTNode =
    BinaryOperator BinaryOperatorKind clang_SourceRange
  | UnaryOperator UnaryOperatorKind clang_SourceRange
  | OtherNode

record ASTUnit =
  getSourceManager :: SourceManager
  fileinfo :: "FileEntry list"
  getLocation :: "FileEntry \<Rightarrow> nat \<Rightarrow> nat \<Rightarrow> clang_SourceLocation"
  getTranslationUnitDecl :: "ASTNode list"

text \<open>
  A compilation database answers \<^verbatim>\<open>getCompileCommands\<close> with the command lines it has for
  a file. \<^verbatim>\<open>ASTUnit::LoadFromCommandLine\<close> and \<^verbatim>\<open>llvm::sys::path::filename\<close> are the
  two other services \<^verbatim>\<open>findAST\<close> calls.
\<close>

record CompilationDatabase =
  getCompileCommands :: "string \<Rightarrow> string list list"

record Clang =
  LoadFromCommandLine :: "string list \<Rightarrow> ASTUnit option"
  path_filename :: "string \<Rightarrow> string"

subsection \<open>The detector\<close>

record CXXJunkDetector =
  compdb :: "CompilationDatabase option"
  compilationFlags :: "string list"
  astUnits :: "string \<rightharpoonup> ASTUnit option"

text \<open>
  The parameter \<^verbatim>\<open>range\<close> of the source is \<open>rng\<close> here. Offsets are compared as
  unsigned numbers.
\<close>

definition locationInRange ::
  "SourceManager \<Rightarrow> clang_SourceRange \<Rightarrow> clang_SourceLocation \<Rightarrow> error + bool" where
  "locationInRange sourceManager rng location =
     (if loc_isFileID location then
        if \<not> loc_isValid location then Inl (AssertionFailed ''mutantLocation.isValid()'')
        else if \<not> loc_isValid (getBegin rng) then Inl (AssertionFailed ''begin.isValid()'')
        else
          let sameSourceFile =
                (getFileID sourceManager location = getFileID sourceManager (getBegin rng));
              mutantOffset = getFileOffset sourceManager location;
              beginOffset = getFileOffset sourceManager (getBegin rng);
              endOffset = getFileOffset sourceManager (getEnd rng);
              inRange = (mutantOffset \<ge> beginOffset \<and> mutantOffset \<le> endOffset)
          in Inr (sameSourceFile \<and> inRange)
      else Inr False)"

definition smallestSourceRange ::
  "SourceManager \<Rightarrow> clang_SourceRange \<Rightarrow> clang_SourceRange \<Rightarrow> clang_SourceRange" where
  "smallestSourceRange sourceManager first second =
     (if range_isInvalid first then second
      else if range_isInvalid second then first
      else
        let firstLength = getFileOffset sourceManager (getEnd first)
                          - getFileOffset sourceManager (getBegin first);
            secondLength = getFileOffset sourceManager (getEnd second)
                           - getFileOffset sourceManager (getBegin second)
        in if firstLength < secondLength then first
           else if secondLength < firstLength then second
           else first)"

text \<open>
  \<^verbatim>\<open>SearchInstructionVisitor\<close>: the source manager and the location are fixed at
  construction, the member \<^verbatim>\<open>sourceRange\<close> is the state.
\<close>

definition visitRangeWithLocation ::
  "SourceManager \<Rightarrow> clang_SourceLocation \<Rightarrow> clang_SourceRange \<Rightarrow> clang_SourceRange
   \<Rightarrow> error + clang_SourceRange" where
  "visitRangeWithLocation sourceManager location sourceRange rng =
     (case locationInRange sourceManager rng location of
        Inl e \<Rightarrow> Inl e
      | Inr True \<Rightarrow> Inr (smallestSourceRange sourceManager sourceRange rng)
      | Inr False \<Rightarrow> Inr sourceRange)"

definition foundRange :: "clang_SourceRange \<Rightarrow> bool" where
  "foundRange sourceRange = range_isValid sourceRange"

text \<open>The three visitors: which nodes hand their range to the search visitor.\<close>

fun ConditionalsBoundaryVisitor_Visit ::
  "SourceManager \<Rightarrow> clang_SourceLocation \<Rightarrow> clang_SourceRange \<Rightarrow> ASTNode
   \<Rightarrow> error + clang_SourceRange" where
  "ConditionalsBoundaryVisitor_Visit sm loc v (BinaryOperator opc rng) =
     (if \<not> isRelationalOp opc then Inr v
      else visitRangeWithLocation sm loc v rng)"
| "ConditionalsBoundaryVisitor_Visit sm loc v _ = Inr v"

fun MathAddVisitor_Visit ::
  "SourceManager \<Rightarrow> clang_SourceLocation \<Rightarrow> clang_SourceRange \<Rightarrow> ASTNode
   \<Rightarrow> error + clang_SourceRange" where
  "MathAddVisitor_Visit sm loc v (BinaryOperator opc rng) =
     (case (if opc = BO_Add then visitRangeWithLocation sm loc v rng else Inr v) of
        Inl e \<Rightarrow> Inl e
      | Inr v' \<Rightarrow>
          if opc = BO_AddAssign then visitRangeWithLocation sm loc v' rng else Inr v')"
| "MathAddVisitor_Visit sm loc v (UnaryOperator opc rng) =
     (if isIncrementOp opc then visitRangeWithLocation sm loc v rng else Inr v)"
| "MathAddVisitor_Visit sm loc v OtherNode = Inr v"

fun MathSubVisitor_Visit ::
  "SourceManager \<Rightarrow> clang_SourceLocation \<Rightarrow> clang_SourceRange \<Rightarrow> ASTNode
   \<Rightarrow> error + clang_SourceRange" where
  "MathSubVisitor_Visit sm loc v (BinaryOperator opc rng) =
     (case (if opc = BO_Sub then visitRangeWithLocation sm loc v rng else Inr v) of
        Inl e \<Rightarrow> Inl e
      | Inr v' \<Rightarrow>
          if opc = BO_SubAssign then visitRangeWithLocation sm loc v' rng else Inr v')"
| "MathSubVisitor_Visit sm loc v (UnaryOperator opc rng) =
     (if isDecrementOp opc then visitRangeWithLocation sm loc v rng else Inr v)"
| "MathSubVisitor_Visit sm loc v OtherNode = Inr v"

text \<open>\<^verbatim>\<open>TraverseDecl\<close>: the visit method on every node in turn, from the given state.\<close>

fun TraverseDecl ::
  "(clang_SourceRange \<Rightarrow> ASTNode \<Rightarrow> error + clang_SourceRange) \<Rightarrow> clang_SourceRange
   \<Rightarrow> ASTNode list \<Rightarrow> error + clang_SourceRange" where
  "TraverseDecl visit v [] = Inr v"
| "TraverseDecl visit v (n # ns) =
     (case visit v n of Inl e \<Rightarrow> Inl e | Inr v' \<Rightarrow> TraverseDecl visit v' ns)"

text \<open>
  \<^verbatim>\<open>commandLineArguments\<close>: the flags list without a database or without an entry for
  the file (looked up by its path, then by its file name).
\<close>

definition commandLineArguments ::
  "Clang \<Rightarrow> CXXJunkDetector \<Rightarrow> string \<Rightarrow> error + string list" where
  "commandLineArguments clang det sourceFile =
     (case compdb det of
        None \<Rightarrow> Inr (compilationFlags det)
      | Some db \<Rightarrow>
          let commands = getCompileCommands db sourceFile;
              commands' = (if commands = []
                           then getCompileCommands db (path_filename clang sourceFile)
                           else commands)
          in if commands' = [] then Inr (compilationFlags det)
             else if length commands' \<noteq> 1
               then Inl (AssertionFailed ''commands.size() == 1'')
             else Inr (hd commands'))"

text \<open>
  The loop of \<^verbatim>\<open>findAST\<close> over the arguments. On \<^verbatim>\<open>-c\<close> the body advances the iterator
  once, a second time unless it is at the end, and \<^verbatim>\<open>continue\<close> runs the increment of
  the \<^verbatim>\<open>for\<close> statement: three arguments are dropped, and with fewer than two arguments
  after \<^verbatim>\<open>-c\<close> the iterator leaves the vector.
\<close>

fun cutCompileArgs :: "string list \<Rightarrow> error + string list" where
  "cutCompileArgs [] = Inr []"
| "cutCompileArgs (a # rest) =
     (if a = ''-c'' then
        (case rest of
           _ # _ # rest' \<Rightarrow> cutCompileArgs rest'
         | _ \<Rightarrow> Inl (UndefinedBehaviour ''argsForFile iterator past end()''))
      else
        (case cutCompileArgs rest of
           Inl e \<Rightarrow> Inl e
         | Inr args \<Rightarrow> Inr (a # args)))"

definition findAST ::
  "Clang \<Rightarrow> CXXJunkDetector \<Rightarrow> MutationPoint
   \<Rightarrow> error + (ASTUnit option \<times> CXXJunkDetector)" where
  "findAST clang det point =
     (if sourceLocation point = None
        then Inl (AssertionFailed ''!point->getSourceLocation().isNull()'')
      else
        case originalValue point of
          OtherValue \<Rightarrow> Inr (None, det)
        | Instruction sourceFile \<Rightarrow>
            (case astUnits det sourceFile of
               Some ast \<Rightarrow> Inr (ast, det)
             | None \<Rightarrow>
                 (case commandLineArguments clang det sourceFile of
                    Inl e \<Rightarrow> Inl e
                  | Inr argsForFile \<Rightarrow>
                      (case cutCompileArgs argsForFile of
                         Inl e \<Rightarrow> Inl e
                       | Inr kept \<Rightarrow>
                           let args = ''mull-cxx'' # kept @ [sourceFile];
                               ast = LoadFromCommandLine clang args
                           in Inr (ast,
                                   det\<lparr>astUnits := (astUnits det)(sourceFile \<mapsto> ast)\<rparr>)))))"

text \<open>
  \<^verbatim>\<open>findFileEntry\<close>: the first entry of the source manager's file table whose name is
  the path of the point's location, null when there is none.
\<close>

definition findFileEntry ::
  "ASTUnit option \<Rightarrow> MutationPoint \<Rightarrow> error + FileEntry option" where
  "findFileEntry ast point =
     (case ast of
        None \<Rightarrow> Inl (AssertionFailed ''ast'')
      | Some a \<Rightarrow>
          (case sourceLocation point of
             None \<Rightarrow> Inl (AssertionFailed ''!point->getSourceLocation().isNull()'')
           | Some sl \<Rightarrow> Inr (find (\<lambda>f. getName f = filePath sl) (fileinfo a))))"

text \<open>
  \<^verbatim>\<open>isJunkBoundaryConditional\<close>, \<^verbatim>\<open>isJunkMathAdd\<close> and \<^verbatim>\<open>isJunkMathSub\<close> have the same
  body and differ in the visitor they construct; \<open>isJunkVisiting\<close> is that body.
\<close>

definition isJunkVisiting ::
  "(SourceManager \<Rightarrow> clang_SourceLocation \<Rightarrow> clang_SourceRange \<Rightarrow> ASTNode
      \<Rightarrow> error + clang_SourceRange)
   \<Rightarrow> Clang \<Rightarrow> CXXJunkDetector \<Rightarrow> MutationPoint \<Rightarrow> SourceLocation
   \<Rightarrow> error + (bool \<times> CXXJunkDetector)" where
  "isJunkVisiting visit clang det point mutantLocation =
     (case findAST clang det point of
        Inl e \<Rightarrow> Inl e
      | Inr (ast, det') \<Rightarrow>
          (case findFileEntry ast point of
             Inl e \<Rightarrow> Inl e
           | Inr None \<Rightarrow> Inl (AssertionFailed ''file'')
           | Inr (Some file) \<Rightarrow>
               if \<not> isValid file then Inl (AssertionFailed ''file->isValid()'')
               else
                 (case ast of
                    None \<Rightarrow> Inl (NullDereference ''ast->getLocation'')
                  | Some a \<Rightarrow>
                      let location = getLocation a file (line mutantLocation)
                                       (column mutantLocation)
                      in if \<not> loc_isValid location
                           then Inl (AssertionFailed ''location.isValid()'')
                         else
                           (case TraverseDecl (visit (getSourceManager a) location)
                                   SourceRange_default (getTranslationUnitDecl a) of
                              Inl e \<Rightarrow> Inl e
                            | Inr v \<Rightarrow> Inr (\<not> foundRange v, det')))))"

definition isJunkBoundaryConditional ::
  "Clang \<Rightarrow> CXXJunkDetector \<Rightarrow> MutationPoint \<Rightarrow> SourceLocation
   \<Rightarrow> error + (bool \<times> CXXJunkDetector)" where
  "isJunkBoundaryConditional = isJunkVisiting ConditionalsBoundaryVisitor_Visit"

definition isJunkMathAdd ::
  "Clang \<Rightarrow> CXXJunkDetector \<Rightarrow> MutationPoint \<Rightarrow> SourceLocation
   \<Rightarrow> error + (bool \<times> CXXJunkDetector)" where
  "isJunkMathAdd = isJunkVisiting MathAddVisitor_Visit"

definition isJunkMathSub ::
  "Clang \<Rightarrow> CXXJunkDetector \<Rightarrow> MutationPoint \<Rightarrow> SourceLocation
   \<Rightarrow> error + (bool \<times> CXXJunkDetector)" where
  "isJunkMathSub = isJunkVisiting MathSubVisitor_Visit"

definition isJunk ::
  "Clang \<Rightarrow> CXXJunkDetector \<Rightarrow> MutationPoint \<Rightarrow> error + (bool \<times> CXXJunkDetector)" where
  "isJunk clang det point =
     (case sourceLocation point of
        None \<Rightarrow> Inr (True, det)
      | Some sl \<Rightarrow>
          (case mutatorKind point of
             ConditionalsBoundaryMutator \<Rightarrow> isJunkBoundaryConditional clang det point sl
           | MathAddMutator \<Rightarrow> isJunkMathAdd clang det point sl
           | MathSubMutator \<Rightarrow> isJunkMathSub clang det point sl
           | OtherMutator _ \<Rightarrow> Inr (False, det)))"

section \<open>The pipeline driver (Driver.cpp)\<close>

subsection \<open>The collaborators of \<^verbatim>\<open>Driver::Run\<close>\<close>

text \<open>
  \<^verbatim>\<open>Run\<close> calls the module loader, the compiler, the test finder, the mutation points
  and the test runner. Their code is outside \<^verbatim>\<open>Driver.cpp\<close>; they are parameters of the
  model. A module is addressed by its position in the context \<^verbatim>\<open>Ctx\<close> (the model of its
  \<^verbatim>\<open>llvm::Module *\<close>); the IR of all loaded modules is the list \<open>Ctx\<close>, which the finder
  reads and a mutation point rewrites. The operators handed to \<^verbatim>\<open>findMutationPoints\<close>
  are fixed by \<^verbatim>\<open>Run\<close> (one \<^verbatim>\<open>AddMutationOperator\<close>), so they are no argument here.
\<close>

record ('ir, 'obj, 'test, 'fn, 'mp) Collaborators =
  loadModuleAtPath :: "string \<Rightarrow> 'ir option"
  CompilerModule :: "'ir \<Rightarrow> 'obj"
  findTests :: "'ir list \<Rightarrow> 'test list"
  findTestees :: "'ir list \<Rightarrow> 'test \<Rightarrow> 'fn list"
  findMutationPoints :: "'ir list \<Rightarrow> 'fn \<Rightarrow> 'mp list"
  getParent :: "'fn \<Rightarrow> nat"
  applyMutation :: "'mp \<Rightarrow> 'ir list \<Rightarrow> 'ir list"
  revertMutation :: "'mp \<Rightarrow> 'ir list \<Rightarrow> 'ir list"

text \<open>
  The calls with an effect, in the order \<^verbatim>\<open>Run\<close> makes them. The value
  \<^verbatim>\<open>Runner.runTest\<close> returns is dropped by \<^verbatim>\<open>Run\<close>, so a run is the call alone: the
  test and the object files it is given.
\<close>

datatype ('obj, 'test, 'mp) Call =
    Call_loadModuleAtPath string
  | Call_CompilerModule nat
  | Call_applyMutation 'mp
  | Call_revertMutation 'mp
  | Call_runTest 'test "'obj list"

text \<open>
  Modelled from the spec: \<^verbatim>\<open>Driver.h\<close>, which declares the member \<^verbatim>\<open>InnerCache\<close>, is
  not among the sources. The spec has objects "keyed by Module handle in a cache": the
  cache is a list of (module, object) entries, \<^verbatim>\<open>insert\<close> adds an entry unless the key is
  there already, and a loop over the cache meets the entries in list order.
\<close>

definition cache_insert :: "nat \<times> 'obj \<Rightarrow> (nat \<times> 'obj) list \<Rightarrow> (nat \<times> 'obj) list" where
  "cache_insert entry cache =
     (if fst entry \<in> fst ` set cache then cache else cache @ [entry])"

record ('ir, 'obj, 'test, 'mp) DriverState =
  Ctx :: "'ir list"
  InnerCache :: "(nat \<times> 'obj) list"
  calls :: "('obj, 'test, 'mp) Call list"

definition AllButOne :: "(nat \<times> 'obj) list \<Rightarrow> nat \<Rightarrow> 'obj list" where
  "AllButOne cache One = map snd (filter (\<lambda>CachedEntry. One \<noteq> fst CachedEntry) cache)"

subsection \<open>\<^verbatim>\<open>Driver::Run\<close>\<close>

text \<open>The first loop: load every module, compile it, cache the object, add it to \<open>Ctx\<close>.\<close>

fun loadModules ::
  "('ir, 'obj, 'test, 'fn, 'mp) Collaborators \<Rightarrow> string list
   \<Rightarrow> ('ir, 'obj, 'test, 'mp) DriverState
   \<Rightarrow> error + ('ir, 'obj, 'test, 'mp) DriverState" where
  "loadModules cb [] st = Inr st"
| "loadModules cb (ModulePath # paths) st =
     (case loadModuleAtPath cb ModulePath of
        None \<Rightarrow> Inl (AssertionFailed ''OwnedModule'')
      | Some OwnedModule \<Rightarrow>
          let Module = length (Ctx st);
              ObjectFile = CompilerModule cb OwnedModule
          in loadModules cb paths
               (st\<lparr>Ctx := Ctx st @ [OwnedModule],
                   InnerCache := cache_insert (Module, ObjectFile) (InnerCache st),
                   calls := calls st @ [Call_loadModuleAtPath ModulePath,
                                        Call_CompilerModule Module]\<rparr>))"

text \<open>
  The body of the innermost loop, for one mutation point. \<open>ObjectFiles\<close> is declared
  outside that loop, so it is part of what an iteration hands to the next. The parent of a
  testee that is no module of \<open>Ctx\<close> is a pointer to nothing.
\<close>

definition Run_point ::
  "('ir, 'obj, 'test, 'fn, 'mp) Collaborators \<Rightarrow> 'test \<Rightarrow> nat \<Rightarrow> 'mp
   \<Rightarrow> ('ir, 'obj, 'test, 'mp) DriverState \<times> 'obj list
   \<Rightarrow> error + (('ir, 'obj, 'test, 'mp) DriverState \<times> 'obj list)" where
  "Run_point cb Test Parent MutationPoint s =
     (let st = fst s;
          ObjectFiles = snd s;
          applied = applyMutation cb MutationPoint (Ctx st)
      in if \<not> Parent < length applied then Inl (NullDereference ''Testee->getParent()'')
         else
           let Mutant = CompilerModule cb (applied ! Parent);
               ObjectFiles' = ObjectFiles @ [Mutant];
               reverted = revertMutation cb MutationPoint applied
           in Inr (st\<lparr>Ctx := reverted,
                       calls := calls st @ [Call_applyMutation MutationPoint,
                                            Call_CompilerModule Parent,
                                            Call_revertMutation MutationPoint,
                                            Call_runTest Test ObjectFiles']\<rparr>,
                   ObjectFiles'))"

fun mutationPointLoop ::
  "('ir, 'obj, 'test, 'fn, 'mp) Collaborators \<Rightarrow> 'test \<Rightarrow> nat \<Rightarrow> 'mp list
   \<Rightarrow> ('ir, 'obj, 'test, 'mp) DriverState \<times> 'obj list
   \<Rightarrow> error + (('ir, 'obj, 'test, 'mp) DriverState \<times> 'obj list)" where
  "mutationPointLoop cb Test Parent [] s = Inr s"
| "mutationPointLoop cb Test Parent (MutationPoint # points) s =
     (case Run_point cb Test Parent MutationPoint s of
        Inl e \<Rightarrow> Inl e
      | Inr s' \<Rightarrow> mutationPointLoop cb Test Parent points s')"

text \<open>The body of the loop over the testees of a test, and that loop.\<close>

definition Run_testee ::
  "('ir, 'obj, 'test, 'fn, 'mp) Collaborators \<Rightarrow> 'test \<Rightarrow> 'fn
   \<Rightarrow> ('ir, 'obj, 'test, 'mp) DriverState
   \<Rightarrow> error + ('ir, 'obj, 'test, 'mp) DriverState" where
  "Run_testee cb Test Testee st =
     (let ObjectFiles = AllButOne (InnerCache st) (getParent cb Testee)
      in case mutationPointLoop cb Test (getParent cb Testee)
                (findMutationPoints cb (Ctx st) Testee) (st, ObjectFiles) of
           Inl e \<Rightarrow> Inl e
         | Inr s' \<Rightarrow> Inr (fst s'))"

fun testeeLoop ::
  "('ir, 'obj, 'test, 'fn, 'mp) Collaborators \<Rightarrow> 'test \<Rightarrow> 'fn list
   \<Rightarrow> ('ir, 'obj, 'test, 'mp) DriverState
   \<Rightarrow> error + ('ir, 'obj, 'test, 'mp) DriverState" where
  "testeeLoop cb Test [] st = Inr st"
| "testeeLoop cb Test (Testee # testees) st =
     (case Run_testee cb Test Testee st of
        Inl e \<Rightarrow> Inl e
      | Inr st' \<Rightarrow> testeeLoop cb Test testees st')"

text \<open>The body of the loop over the tests, and that loop.\<close>

definition Run_test ::
  "('ir, 'obj, 'test, 'fn, 'mp) Collaborators \<Rightarrow> 'test
   \<Rightarrow> ('ir, 'obj, 'test, 'mp) DriverState
   \<Rightarrow> error + ('ir, 'obj, 'test, 'mp) DriverState" where
  "Run_test cb Test st = testeeLoop cb Test (findTestees cb (Ctx st) Test) st"

fun testLoop ::
  "('ir, 'obj, 'test, 'fn, 'mp) Collaborators \<Rightarrow> 'test list
   \<Rightarrow> ('ir, 'obj, 'test, 'mp) DriverState
   \<Rightarrow> error + ('ir, 'obj, 'test, 'mp) DriverState" where
  "testLoop cb [] st = Inr st"
| "testLoop cb (Test # tests) st =
     (case Run_test cb Test st of
        Inl e \<Rightarrow> Inl e
      | Inr st' \<Rightarrow> testLoop cb tests st')"

text \<open>
  \<^verbatim>\<open>Run\<close>, from the bitcode paths of the configuration and the cache the driver holds
  when it is called. \<open>Ctx\<close> is local to \<^verbatim>\<open>Run\<close> and starts empty.
\<close>

definition Run ::
  "('ir, 'obj, 'test, 'fn, 'mp) Collaborators \<Rightarrow> string list \<Rightarrow> (nat \<times> 'obj) list
   \<Rightarrow> error + ('ir, 'obj, 'test, 'mp) DriverState" where
  "Run cb BitcodePaths cache =
     (case loadModules cb BitcodePaths \<lparr>Ctx = [], InnerCache = cache, calls = []\<rparr> of
        Inl e \<Rightarrow> Inl e
      | Inr st \<Rightarrow> testLoop cb (findTests cb (Ctx st)) st)"

subsection \<open>Reading the calls of a run\<close>

fun runTestCalls :: "('obj, 'test, 'mp) Call list \<Rightarrow> ('test \<times> 'obj list) list" where
  "runTestCalls [] = []"
| "runTestCalls (Call_runTest t objs # cs) = (t, objs) # runTestCalls cs"
| "runTestCalls (_ # cs) = runTestCalls cs"

fun mutationCalls :: "('obj, 'test, 'mp) Call list \<Rightarrow> ('obj, 'test, 'mp) Call list" where
  "mutationCalls [] = []"
| "mutationCalls (Call_applyMutation p # cs) = Call_applyMutation p # mutationCalls cs"
| "mutationCalls (Call_revertMutation p # cs) = Call_revertMutation p # mutationCalls cs"
| "mutationCalls (_ # cs) = mutationCalls cs"

section \<open>The words of the specification\<close>

text \<open>
  The length of a range, "end offset minus begin offset", as an integer; the ranges "of
  the operator-specific kind" of section 4.5 of the specification (a relational binary
  operator for ConditionalsBoundary; \<^verbatim>\<open>+\<close>, \<^verbatim>\<open>+=\<close> or \<^verbatim>\<open>++\<close> for MathAdd; \<^verbatim>\<open>-\<close>, \<^verbatim>\<open>-=\<close> or
  \<^verbatim>\<open>--\<close> for MathSub), in the order of the walk; and those of them that contain a
  location.
\<close>

definition rangeLength :: "SourceManager \<Rightarrow> clang_SourceRange \<Rightarrow> int" where
  "rangeLength sm r = uint (getFileOffset sm (getEnd r)) - uint (getFileOffset sm (getBegin r))"

fun rangeOfKind :: "MutatorKind \<Rightarrow> ASTNode \<Rightarrow> clang_SourceRange option" where
  "rangeOfKind ConditionalsBoundaryMutator (BinaryOperator opc r) =
     (if opc \<in> {BO_LT, BO_GT, BO_LE, BO_GE} then Some r else None)"
| "rangeOfKind MathAddMutator (BinaryOperator opc r) =
     (if opc \<in> {BO_Add, BO_AddAssign} then Some r else None)"
| "rangeOfKind MathAddMutator (UnaryOperator opc r) =
     (if opc \<in> {UO_PreInc, UO_PostInc} then Some r else None)"
| "rangeOfKind MathSubMutator (BinaryOperator opc r) =
     (if opc \<in> {BO_Sub, BO_SubAssign} then Some r else None)"
| "rangeOfKind MathSubMutator (UnaryOperator opc r) =
     (if opc \<in> {UO_PreDec, UO_PostDec} then Some r else None)"
| "rangeOfKind _ _ = None"

definition rangesOfKind :: "MutatorKind \<Rightarrow> ASTNode list \<Rightarrow> clang_SourceRange list" where
  "rangesOfKind k nodes = List.map_filter (rangeOfKind k) nodes"

definition matchingRanges ::
  "SourceManager \<Rightarrow> clang_SourceLocation \<Rightarrow> MutatorKind \<Rightarrow> ASTNode list
   \<Rightarrow> clang_SourceRange list" where
  "matchingRanges sm loc k nodes =
     filter (\<lambda>r. locationInRange sm r loc = Inr True) (rangesOfKind k nodes)"

text \<open>
  "Pick the smallest range, ties resolve to the first encountered": \<open>v\<close> is one of the
  candidates, no candidate is shorter, and every candidate met before it is longer.
\<close>

definition firstSmallestOf ::
  "SourceManager \<Rightarrow> clang_SourceRange list \<Rightarrow> clang_SourceRange \<Rightarrow> bool" where
  "firstSmallestOf sm cands v =
     (\<exists>i<length cands. v = cands ! i
        \<and> (\<forall>j<length cands. rangeLength sm (cands ! i) \<le> rangeLength sm (cands ! j))
        \<and> (\<forall>j<i. rangeLength sm (cands ! i) < rangeLength sm (cands ! j)))"

text \<open>
  The calls of \<^verbatim>\<open>visitRangeWithLocation\<close> that a walk makes on one search visitor, given
  the ranges it hands over, in turn.
\<close>

fun visitRanges ::
  "SourceManager \<Rightarrow> clang_SourceLocation \<Rightarrow> clang_SourceRange \<Rightarrow> clang_SourceRange list
   \<Rightarrow> error + clang_SourceRange" where
  "visitRanges sm loc v [] = Inr v"
| "visitRanges sm loc v (r # rs) =
     (case visitRangeWithLocation sm loc v r of
        Inl e \<Rightarrow> Inl e
      | Inr v' \<Rightarrow> visitRanges sm loc v' rs)"

section \<open>Sample inputs\<close>

subsection \<open>A source file and its AST\<close>

text \<open>
  One file, \<^verbatim>\<open>sum.c\<close>. Its locations are numbered by line and column, line 2 is the body
  of a macro, and the walk meets three additions around column 7 of line 1.
\<close>

definition sample_sm :: SourceManager where
  "sample_sm = \<lparr>getFileID = (\<lambda>l. if l = 0 then 0 else 1), getFileOffset = (\<lambda>l. l)\<rparr>"

definition sample_file :: FileEntry where
  "sample_file = \<lparr>getName = ''sum.c'', isValid = True\<rparr>"

definition sample_nodes :: "ASTNode list" where
  "sample_nodes =
     [BinaryOperator BO_Add \<lparr>getBegin = 100, getEnd = 120\<rparr>,
      OtherNode,
      BinaryOperator BO_Add \<lparr>getBegin = 105, getEnd = 110\<rparr>,
      BinaryOperator BO_LT \<lparr>getBegin = 107, getEnd = 108\<rparr>,
      BinaryOperator BO_Add \<lparr>getBegin = 106, getEnd = 111\<rparr>,
      UnaryOperator UO_PreInc \<lparr>getBegin = 130, getEnd = 133\<rparr>]"

definition sample_ast :: ASTUnit where
  "sample_ast =
     \<lparr>getSourceManager = sample_sm,
      fileinfo = [sample_file],
      getLocation = (\<lambda>f l c. if l = 2 then 0x80000005 else word_of_nat (100 * l + c)),
      getTranslationUnitDecl = sample_nodes\<rparr>"

definition sample_clang :: Clang where
  "sample_clang =
     \<lparr>LoadFromCommandLine = (\<lambda>args. if last args = ''sum.c'' then Some sample_ast else None),
      path_filename = (\<lambda>p. p)\<rparr>"

definition sample_detector :: CXXJunkDetector where
  "sample_detector = \<lparr>compdb = None, compilationFlags = [''-std=c99''], astUnits = Map.empty\<rparr>"

text \<open>The detector once it has loaded the AST of \<^verbatim>\<open>sum.c\<close>.\<close>

definition sample_detector_loaded :: CXXJunkDetector where
  "sample_detector_loaded = sample_detector\<lparr>astUnits := [''sum.c'' \<mapsto> Some sample_ast]\<rparr>"

definition point_without_location :: MutationPoint where
  "point_without_location =
     \<lparr>sourceLocation = None, mutatorKind = MathAddMutator, originalValue = Instruction ''sum.c''\<rparr>"

definition point_in_sum :: MutationPoint where
  "point_in_sum =
     \<lparr>sourceLocation = Some \<lparr>filePath = ''sum.c'', line = 1, column = 7\<rparr>,
      mutatorKind = MathAddMutator, originalValue = Instruction ''sum.c''\<rparr>"

definition point_in_header :: MutationPoint where
  "point_in_header =
     \<lparr>sourceLocation = Some \<lparr>filePath = ''sum.h'', line = 1, column = 7\<rparr>,
      mutatorKind = MathAddMutator, originalValue = Instruction ''sum.c''\<rparr>"

definition point_in_macro :: MutationPoint where
  "point_in_macro =
     \<lparr>sourceLocation = Some \<lparr>filePath = ''sum.c'', line = 2, column = 3\<rparr>,
      mutatorKind = MathSubMutator, originalValue = Instruction ''sum.c''\<rparr>"

subsection \<open>Two modules, one test, one testee\<close>

text \<open>
  The configuration of the unit test of the driver: the paths \<^verbatim>\<open>foo\<close> (the tester) and
  \<^verbatim>\<open>bar\<close> (the testee). The IR of a module is a number, its object is that number plus
  1000, and a mutation adds its amount to the IR of its module and takes it off again.
  The testee \<^verbatim>\<open>sum\<close> of module 1 has two mutation points.
\<close>

type_synonym sample_point = "MutationPoint \<times> nat \<times> int"

definition sample_point1 :: sample_point where
  "sample_point1 = (point_without_location, 1, 1)"

definition sample_point2 :: sample_point where
  "sample_point2 = (point_in_sum, 1, 2)"

definition sample_collaborators ::
  "(int, int, string, string \<times> nat, sample_point) Collaborators" where
  "sample_collaborators =
     \<lparr>loadModuleAtPath =
        (\<lambda>p. if p = ''foo'' then Some 100 else if p = ''bar'' then Some 200 else None),
      CompilerModule = (\<lambda>m. 1000 + m),
      findTests = (\<lambda>ctx. [''test_main'']),
      findTestees = (\<lambda>ctx t. [(''sum'', 1)]),
      findMutationPoints = (\<lambda>ctx f. [sample_point1, sample_point2]),
      getParent = snd,
      applyMutation = (\<lambda>p ctx. ctx[fst (snd p) := ctx ! fst (snd p) + snd (snd p)]),
      revertMutation = (\<lambda>p ctx. ctx[fst (snd p) := ctx ! fst (snd p) - snd (snd p)])\<rparr>"

text \<open>The first seed scenario of the specification: a testee with nothing to mutate.\<close>

definition trivial_collaborators ::
  "(int, int, string, string \<times> nat, sample_point) Collaborators" where
  "trivial_collaborators =
     sample_collaborators
       \<lparr>findTests := (\<lambda>ctx. [''test_trivial'']),
        findTestees := (\<lambda>ctx t. [(''noop'', 1)]),
        findMutationPoints := (\<lambda>ctx f. [])\<rparr>"

text \<open>The state of a fresh driver after its first loop on the two paths, calls left out.\<close>

definition sample_loaded :: "(int, int, string, sample_point) DriverState" where
  "sample_loaded = \<lparr>Ctx = [100, 200], InnerCache = [(0, 1100), (1, 1200)], calls = []\<rparr>"

section \<open>Lemmas on the junk detector\<close>

subsection \<open>Locations inside a macro expansion\<close>

lemma macro_loc_valid: "\<not> loc_isFileID l \<Longrightarrow> loc_isValid l"
  by (auto simp: loc_isFileID_def loc_isValid_def)

lemma locationInRange_macro: "\<not> loc_isFileID l \<Longrightarrow> locationInRange sm r l = Inr False"
  by (simp add: locationInRange_def)

lemma visitRange_macro: "\<not> loc_isFileID l \<Longrightarrow> visitRangeWithLocation sm l v r = Inr v"
  by (simp add: visitRangeWithLocation_def locationInRange_macro)

lemma visitRanges_macro: "\<not> loc_isFileID l \<Longrightarrow> visitRanges sm l v rs = Inr v"
  by (induction rs) (simp_all add: visitRange_macro)

subsection \<open>A walk is a sequence of calls on the search visitor\<close>

lemma CB_visit_kind:
  "ConditionalsBoundaryVisitor_Visit sm loc v n =
     (case rangeOfKind ConditionalsBoundaryMutator n of
        None \<Rightarrow> Inr v
      | Some r \<Rightarrow> visitRangeWithLocation sm loc v r)"
  by (cases n) (auto simp: isRelationalOp_def)

lemma Add_visit_kind:
  "MathAddVisitor_Visit sm loc v n =
     (case rangeOfKind MathAddMutator n of
        None \<Rightarrow> Inr v
      | Some r \<Rightarrow> visitRangeWithLocation sm loc v r)"
  by (cases n) (auto simp: isIncrementOp_def split: sum.splits)

lemma Sub_visit_kind:
  "MathSubVisitor_Visit sm loc v n =
     (case rangeOfKind MathSubMutator n of
        None \<Rightarrow> Inr v
      | Some r \<Rightarrow> visitRangeWithLocation sm loc v r)"
  by (cases n) (auto simp: isDecrementOp_def split: sum.splits)

lemma visit_of_kind:
  assumes "(k, visit) \<in>
           {(ConditionalsBoundaryMutator, ConditionalsBoundaryVisitor_Visit),
            (MathAddMutator, MathAddVisitor_Visit),
            (MathSubMutator, MathSubVisitor_Visit)}"
  shows "visit sm loc v n =
           (case rangeOfKind k n of
              None \<Rightarrow> Inr v
            | Some r \<Rightarrow> visitRangeWithLocation sm loc v r)"
  using assms CB_visit_kind Add_visit_kind Sub_visit_kind by auto

lemma Traverse_visitRanges:
  assumes "\<And>v n. visit v n =
             (case rangeOfKind k n of
                None \<Rightarrow> Inr v
              | Some r \<Rightarrow> visitRangeWithLocation sm loc v r)"
  shows "TraverseDecl visit v nodes = visitRanges sm loc v (rangesOfKind k nodes)"
proof (induction nodes arbitrary: v)
  case Nil
  show ?case by (simp add: rangesOfKind_def map_filter_simps)
next
  case (Cons n ns)
  show ?case
  proof (cases "rangeOfKind k n")
    case None
    then show ?thesis using Cons by (simp add: assms rangesOfKind_def map_filter_simps)
  next
    case (Some r)
    then show ?thesis using Cons
      by (simp add: assms rangesOfKind_def map_filter_simps split: sum.splits)
  qed
qed

lemma Traverse_macro:
  assumes "\<And>v n. visit v n =
             (case rangeOfKind k n of
                None \<Rightarrow> Inr v
              | Some r \<Rightarrow> visitRangeWithLocation sm loc v r)"
    and "\<not> loc_isFileID loc"
  shows "TraverseDecl visit v nodes = Inr v"
  using Traverse_visitRanges [where visit=visit and k=k and sm=sm and loc=loc, OF assms(1)]
    visitRanges_macro [OF assms(2)]
  by simp

subsection \<open>No assertion fails on valid ranges\<close>

lemma locationInRange_total:
  assumes "loc_isValid loc" "loc_isValid (getBegin r)"
  shows "locationInRange sm r loc =
           Inr (loc_isFileID loc \<and> getFileID sm loc = getFileID sm (getBegin r)
                \<and> getFileOffset sm (getBegin r) \<le> getFileOffset sm loc
                \<and> getFileOffset sm loc \<le> getFileOffset sm (getEnd r))"
  using assms by (simp add: locationInRange_def Let_def)

lemma locationInRange_ordered:
  "locationInRange sm r loc = Inr True
   \<Longrightarrow> getFileOffset sm (getBegin r) \<le> getFileOffset sm (getEnd r)"
  by (auto simp: locationInRange_def Let_def split: if_splits)

lemma visitRanges_foldl:
  assumes "loc_isValid loc" "\<forall>r \<in> set rs. range_isValid r"
  shows "visitRanges sm loc v rs =
           Inr (foldl (smallestSourceRange sm) v
                  (filter (\<lambda>r. locationInRange sm r loc = Inr True) rs))"
  using assms(2)
proof (induction rs arbitrary: v)
  case Nil
  show ?case by simp
next
  case (Cons r rs)
  have b: "loc_isValid (getBegin r)" using Cons.prems by (simp add: range_isValid_def)
  obtain c where c: "locationInRange sm r loc = Inr c"
    using locationInRange_total [OF assms(1) b] by blast
  show ?case using Cons c by (cases c) (simp_all add: visitRangeWithLocation_def)
qed

subsection \<open>The unsigned lengths compare as the integer lengths\<close>

lemma word_length_less:
  fixes b e b' e' :: "32 word"
  assumes "b \<le> e" "b' \<le> e'"
  shows "(e - b < e' - b') = (uint e - uint b < uint e' - uint b')"
proof -
  have "uint (e - b) = uint e - uint b" "uint (e' - b') = uint e' - uint b'"
    using assms by (simp_all add: uint_sub_lem word_le_def)
  then show ?thesis by (simp add: word_less_def)
qed

lemma smallest_by_length:
  assumes "range_isValid a" "range_isValid c"
    and "getFileOffset sm (getBegin a) \<le> getFileOffset sm (getEnd a)"
    and "getFileOffset sm (getBegin c) \<le> getFileOffset sm (getEnd c)"
  shows "smallestSourceRange sm a c = (if rangeLength sm a \<le> rangeLength sm c then a else c)"
  using assms word_length_less [OF assms(3) assms(4)] word_length_less [OF assms(4) assms(3)]
  by (auto simp: smallestSourceRange_def range_isInvalid_def Let_def rangeLength_def)

lemma not_found_default: "\<not> foundRange SourceRange_default"
  by (simp add: foundRange_def range_isValid_def SourceRange_default_def loc_isValid_def)

lemma firstSmallestOf_found:
  assumes "\<forall>r \<in> set cs. range_isValid r" "firstSmallestOf sm cs v"
  shows "foundRange v"
  using assms by (auto simp: firstSmallestOf_def foundRange_def)

subsection \<open>What the search visitor holds after the candidates\<close>

lemma foldl_smallest:
  assumes "\<forall>r \<in> set cs. range_isValid r
             \<and> getFileOffset sm (getBegin r) \<le> getFileOffset sm (getEnd r)"
  shows "(cs = [] \<longrightarrow> foldl (smallestSourceRange sm) SourceRange_default cs = SourceRange_default)
       \<and> (cs \<noteq> [] \<longrightarrow>
            firstSmallestOf sm cs (foldl (smallestSourceRange sm) SourceRange_default cs))"
  using assms
proof (induction cs rule: rev_induct)
  case Nil
  show ?case by simp
next
  case (snoc c cs)
  let ?pick = "foldl (smallestSourceRange sm) SourceRange_default"
  have cv: "range_isValid c" "getFileOffset sm (getBegin c) \<le> getFileOffset sm (getEnd c)"
    using snoc.prems by simp_all
  show ?case
  proof (cases "cs = []")
    case True
    have "smallestSourceRange sm SourceRange_default c = c"
      using not_found_default
      by (simp add: smallestSourceRange_def range_isInvalid_def foundRange_def)
    then show ?thesis using True by (simp add: firstSmallestOf_def)
  next
    case False
    then have "firstSmallestOf sm cs (?pick cs)" using snoc by simp
    then obtain i where i: "i < length cs" "?pick cs = cs ! i"
      "\<forall>j<length cs. rangeLength sm (cs ! i) \<le> rangeLength sm (cs ! j)"
      "\<forall>j<i. rangeLength sm (cs ! i) < rangeLength sm (cs ! j)"
      by (auto simp: firstSmallestOf_def)
    have iv: "range_isValid (cs ! i)"
      "getFileOffset sm (getBegin (cs ! i)) \<le> getFileOffset sm (getEnd (cs ! i))"
      using snoc.prems i(1) by simp_all
    have step: "?pick (cs @ [c]) =
        (if rangeLength sm (cs ! i) \<le> rangeLength sm c then cs ! i else c)"
      using smallest_by_length [OF iv(1) cv(1) iv(2) cv(2)] i(2) by simp
    show ?thesis
    proof (cases "rangeLength sm (cs ! i) \<le> rangeLength sm c")
      case True
      have "firstSmallestOf sm (cs @ [c]) (cs ! i)"
        unfolding firstSmallestOf_def
      proof (intro exI [of _ i] conjI allI impI)
        show "i < length (cs @ [c])" using i(1) by simp
        show "cs ! i = (cs @ [c]) ! i" using i(1) by (simp add: nth_append)
        show "rangeLength sm ((cs @ [c]) ! i) \<le> rangeLength sm ((cs @ [c]) ! j)"
          if "j < length (cs @ [c])" for j
          using that i(1) i(3) True by (cases "j < length cs") (auto simp: nth_append)
        show "rangeLength sm ((cs @ [c]) ! i) < rangeLength sm ((cs @ [c]) ! j)"
          if "j < i" for j
          using that i(1) i(4) by (simp add: nth_append)
      qed
      then show ?thesis using step True by simp
    next
      case False
      have "firstSmallestOf sm (cs @ [c]) c"
        unfolding firstSmallestOf_def
      proof (intro exI [of _ "length cs"] conjI allI impI)
        show "length cs < length (cs @ [c])" by simp
        show "c = (cs @ [c]) ! length cs" by simp
        show "rangeLength sm ((cs @ [c]) ! length cs) \<le> rangeLength sm ((cs @ [c]) ! j)"
          if "j < length (cs @ [c])" for j
        proof (cases "j < length cs")
          case True
          then have "rangeLength sm (cs ! i) \<le> rangeLength sm (cs ! j)" using i(3) by simp
          then show ?thesis using False True by (simp add: nth_append)
        next
          case at_end: False
          then have "j = length cs" using that by simp
          then show ?thesis by simp
        qed
        show "rangeLength sm ((cs @ [c]) ! length cs) < rangeLength sm ((cs @ [c]) ! j)"
          if "j < length cs" for j
        proof -
          have "rangeLength sm (cs ! i) \<le> rangeLength sm (cs ! j)" using i(3) that by simp
          then show ?thesis using False that by (simp add: nth_append)
        qed
      qed
      then show ?thesis using step False by simp
    qed
  qed
qed

lemma Traverse_selects:
  assumes vk: "\<And>v n. visit v n =
                 (case rangeOfKind k n of
                    None \<Rightarrow> Inr v
                  | Some r \<Rightarrow> visitRangeWithLocation sm loc v r)"
    and lv: "loc_isValid loc"
    and rv: "\<forall>r \<in> set (rangesOfKind k nodes). range_isValid r"
  shows "\<exists>v. TraverseDecl visit SourceRange_default nodes = Inr v
           \<and> (matchingRanges sm loc k nodes \<noteq> []
                \<longrightarrow> firstSmallestOf sm (matchingRanges sm loc k nodes) v)
           \<and> (foundRange v \<longleftrightarrow> matchingRanges sm loc k nodes \<noteq> [])"
proof -
  let ?cs = "matchingRanges sm loc k nodes"
  let ?v = "foldl (smallestSourceRange sm) SourceRange_default ?cs"
  have run: "TraverseDecl visit SourceRange_default nodes = Inr ?v"
    using Traverse_visitRanges [where visit=visit and k=k and sm=sm and loc=loc, OF vk]
      visitRanges_foldl [OF lv rv]
    by (simp add: matchingRanges_def)
  have cs: "\<forall>r \<in> set ?cs. range_isValid r
              \<and> getFileOffset sm (getBegin r) \<le> getFileOffset sm (getEnd r)"
    using rv by (auto simp: matchingRanges_def dest: locationInRange_ordered)
  have sel: "?cs \<noteq> [] \<longrightarrow> firstSmallestOf sm ?cs ?v"
    and none: "?cs = [] \<longrightarrow> ?v = SourceRange_default"
    using foldl_smallest [OF cs] by simp_all
  have "foundRange ?v \<longleftrightarrow> ?cs \<noteq> []"
  proof (cases "?cs = []")
    case True
    then show ?thesis using none not_found_default by simp
  next
    case False
    then have "foundRange ?v"
      using sel cs firstSmallestOf_found [where cs="?cs" and sm=sm and v="?v"] by blast
    then show ?thesis using False by simp
  qed
  then show ?thesis using run sel by blast
qed

subsection \<open>From the walk to the verdict\<close>

lemma isJunkVisiting_verdict:
  assumes "findAST clang det point = Inr (Some ast, det')"
    and "sourceLocation point = Some sl"
    and "find (\<lambda>f. getName f = filePath sl) (fileinfo ast) = Some file"
    and "isValid file"
    and "loc_isValid (getLocation ast file (line sl) (column sl))"
    and "TraverseDecl (visit (getSourceManager ast) (getLocation ast file (line sl) (column sl)))
           SourceRange_default (getTranslationUnitDecl ast) = Inr v"
  shows "isJunkVisiting visit clang det point sl = Inr (\<not> foundRange v, det')"
  using assms by (simp add: isJunkVisiting_def findFileEntry_def Let_def)

lemma isJunk_dispatch:
  assumes "sourceLocation point = Some sl"
    and "(mutatorKind point, visit) \<in>
           {(ConditionalsBoundaryMutator, ConditionalsBoundaryVisitor_Visit),
            (MathAddMutator, MathAddVisitor_Visit),
            (MathSubMutator, MathSubVisitor_Visit)}"
  shows "isJunk clang det point = isJunkVisiting visit clang det point sl"
  using assms
  by (auto simp: isJunk_def isJunkBoundaryConditional_def isJunkMathAdd_def isJunkMathSub_def)

subsection \<open>The sample file\<close>

lemma findAST_sample:
  "originalValue point = Instruction ''sum.c'' \<Longrightarrow> sourceLocation point \<noteq> None \<Longrightarrow>
   findAST sample_clang sample_detector point = Inr (Some sample_ast, sample_detector_loaded)"
  by (simp add: findAST_def sample_detector_def commandLineArguments_def sample_clang_def
      sample_detector_loaded_def Let_def)

lemma sample_matching:
  "matchingRanges sample_sm 107 MathAddMutator sample_nodes =
     [\<lparr>getBegin = 100, getEnd = 120\<rparr>, \<lparr>getBegin = 105, getEnd = 110\<rparr>,
      \<lparr>getBegin = 106, getEnd = 111\<rparr>]"
  by (simp add: matchingRanges_def rangesOfKind_def map_filter_simps sample_nodes_def
      locationInRange_def loc_isFileID_def loc_isValid_def sample_sm_def Let_def)

section \<open>Lemmas on the driver\<close>

lemma mutationCalls_append: "mutationCalls (xs @ ys) = mutationCalls xs @ mutationCalls ys"
  by (induction xs rule: mutationCalls.induct) simp_all

lemma runTestCalls_append: "runTestCalls (xs @ ys) = runTestCalls xs @ runTestCalls ys"
  by (induction xs rule: runTestCalls.induct) simp_all

lemma Run_point_effect:
  assumes "Run_point cb Test Parent P s = Inr s'"
  shows "InnerCache (fst s') = InnerCache (fst s)"
    and "Ctx (fst s') = revertMutation cb P (applyMutation cb P (Ctx (fst s)))"
    and "mutationCalls (calls (fst s')) =
           mutationCalls (calls (fst s)) @ [Call_applyMutation P, Call_revertMutation P]"
    and "map fst (runTestCalls (calls (fst s'))) = map fst (runTestCalls (calls (fst s))) @ [Test]"
  using assms
  by (auto simp: Run_point_def Let_def mutationCalls_append runTestCalls_append split: if_splits)

lemma mutationPointLoop_effect:
  assumes "mutationPointLoop cb Test Parent points s = Inr s'"
  shows "InnerCache (fst s') = InnerCache (fst s)
       \<and> mutationCalls (calls (fst s')) =
           mutationCalls (calls (fst s))
             @ concat (map (\<lambda>P. [Call_applyMutation P, Call_revertMutation P]) points)
       \<and> map fst (runTestCalls (calls (fst s'))) =
           map fst (runTestCalls (calls (fst s))) @ replicate (length points) Test"
  using assms
proof (induction points arbitrary: s)
  case Nil
  then show ?case by simp
next
  case (Cons P points)
  then obtain s1 where s1: "Run_point cb Test Parent P s = Inr s1"
    and rest: "mutationPointLoop cb Test Parent points s1 = Inr s'"
    by (auto split: sum.splits)
  show ?case
    using Cons.IH [OF rest] Run_point_effect [OF s1]
    by (simp add: replicate_append_same)
qed

lemma mutationPointLoop_Ctx:
  assumes "\<forall>p ctx. revertMutation cb p (applyMutation cb p ctx) = ctx"
    and "mutationPointLoop cb Test Parent points s = Inr s'"
  shows "Ctx (fst s') = Ctx (fst s)"
  using assms(2)
proof (induction points arbitrary: s)
  case Nil
  then show ?case by simp
next
  case (Cons P points)
  then obtain s1 where s1: "Run_point cb Test Parent P s = Inr s1"
    and rest: "mutationPointLoop cb Test Parent points s1 = Inr s'"
    by (auto split: sum.splits)
  show ?case
    using Cons.IH [OF rest] Run_point_effect(2) [OF s1] assms(1) by simp
qed

lemma Run_testee_effect:
  assumes "Run_testee cb Test Testee st = Inr st'"
  shows "InnerCache st' = InnerCache st
       \<and> mutationCalls (calls st') =
           mutationCalls (calls st)
             @ concat (map (\<lambda>P. [Call_applyMutation P, Call_revertMutation P])
                         (findMutationPoints cb (Ctx st) Testee))
       \<and> map fst (runTestCalls (calls st')) =
           map fst (runTestCalls (calls st))
             @ replicate (length (findMutationPoints cb (Ctx st) Testee)) Test"
proof -
  obtain s' where s': "mutationPointLoop cb Test (getParent cb Testee)
        (findMutationPoints cb (Ctx st) Testee)
        (st, AllButOne (InnerCache st) (getParent cb Testee)) = Inr s'" and "st' = fst s'"
    using assms by (auto simp: Run_testee_def Let_def split: sum.splits)
  then show ?thesis using mutationPointLoop_effect [OF s'] by simp
qed

lemma Run_testee_Ctx:
  assumes "\<forall>p ctx. revertMutation cb p (applyMutation cb p ctx) = ctx"
    and "Run_testee cb Test Testee st = Inr st'"
  shows "Ctx st' = Ctx st"
proof -
  obtain s' where s': "mutationPointLoop cb Test (getParent cb Testee)
        (findMutationPoints cb (Ctx st) Testee)
        (st, AllButOne (InnerCache st) (getParent cb Testee)) = Inr s'" and "st' = fst s'"
    using assms(2) by (auto simp: Run_testee_def Let_def split: sum.splits)
  then show ?thesis using mutationPointLoop_Ctx [OF assms(1) s'] by simp
qed

lemma testeeLoop_cache:
  assumes "testeeLoop cb Test testees st = Inr st'"
  shows "InnerCache st' = InnerCache st"
  using assms
proof (induction testees arbitrary: st)
  case Nil
  then show ?case by simp
next
  case (Cons E testees)
  then obtain st1 where st1: "Run_testee cb Test E st = Inr st1"
    and rest: "testeeLoop cb Test testees st1 = Inr st'"
    by (auto split: sum.splits)
  show ?case using Cons.IH [OF rest] Run_testee_effect [OF st1] by simp
qed

lemma testeeLoop_reverted:
  assumes rt: "\<forall>p ctx. revertMutation cb p (applyMutation cb p ctx) = ctx"
    and "testeeLoop cb Test testees st = Inr st'"
  shows "Ctx st' = Ctx st
       \<and> mutationCalls (calls st') =
           mutationCalls (calls st)
             @ concat (map (\<lambda>Testee.
                  concat (map (\<lambda>P. [Call_applyMutation P, Call_revertMutation P])
                            (findMutationPoints cb (Ctx st) Testee))) testees)"
  using assms(2)
proof (induction testees arbitrary: st)
  case Nil
  then show ?case by simp
next
  case (Cons E testees)
  then obtain st1 where st1: "Run_testee cb Test E st = Inr st1"
    and rest: "testeeLoop cb Test testees st1 = Inr st'"
    by (auto split: sum.splits)
  have c: "Ctx st1 = Ctx st" using Run_testee_Ctx [OF rt st1] .
  show ?case using Cons.IH [OF rest] Run_testee_effect [OF st1] c by simp
qed

lemma testLoop_cache:
  assumes "testLoop cb tests st = Inr st'"
  shows "InnerCache st' = InnerCache st"
  using assms
proof (induction tests arbitrary: st)
  case Nil
  then show ?case by simp
next
  case (Cons T tests)
  then obtain st1 where st1: "Run_test cb T st = Inr st1"
    and rest: "testLoop cb tests st1 = Inr st'"
    by (auto split: sum.splits)
  show ?case using Cons.IH [OF rest] testeeLoop_cache st1 by (simp add: Run_test_def)
qed

subsection \<open>The sample run\<close>

lemma sample_round_trip:
  "\<forall>p ctx. revertMutation sample_collaborators p (applyMutation sample_collaborators p ctx) = ctx"
proof (intro allI)
  fix p :: sample_point and ctx :: "int list"
  show "revertMutation sample_collaborators p (applyMutation sample_collaborators p ctx) = ctx"
    by (cases "fst (snd p) < length ctx")
       (simp_all add: sample_collaborators_def list_update_beyond not_less)
qed

lemma sample_loading:
  "loadModules sample_collaborators [''foo'', ''bar''] \<lparr>Ctx = [], InnerCache = [], calls = []\<rparr>
     = Inr (sample_loaded\<lparr>calls := [Call_loadModuleAtPath ''foo'', Call_CompilerModule 0,
                                     Call_loadModuleAtPath ''bar'', Call_CompilerModule 1]\<rparr>)"
  by code_simp

lemma sample_testee_run:
  "Run_testee sample_collaborators ''test_main'' (''sum'', 1) sample_loaded =
     Inr \<lparr>Ctx = [100, 200], InnerCache = [(0, 1100), (1, 1200)],
          calls = [Call_applyMutation sample_point1, Call_CompilerModule 1,
                   Call_revertMutation sample_point1, Call_runTest ''test_main'' [1100, 1201],
                   Call_applyMutation sample_point2, Call_CompilerModule 1,
                   Call_revertMutation sample_point2,
                   Call_runTest ''test_main'' [1100, 1201, 1202]]\<rparr>"
  by code_simp

lemma sample_test_run:
  "Run_test sample_collaborators ''test_main'' sample_loaded =
     Inr \<lparr>Ctx = [100, 200], InnerCache = [(0, 1100), (1, 1200)],
          calls = [Call_applyMutation sample_point1, Call_CompilerModule 1,
                   Call_revertMutation sample_point1, Call_runTest ''test_main'' [1100, 1201],
                   Call_applyMutation sample_point2, Call_CompilerModule 1,
                   Call_revertMutation sample_point2,
                   Call_runTest ''test_main'' [1100, 1201, 1202]]\<rparr>"
  by code_simp

lemma sample_Run:
  "Run sample_collaborators [''foo'', ''bar''] [] =
     Inr \<lparr>Ctx = [100, 200], InnerCache = [(0, 1100), (1, 1200)],
          calls = [Call_loadModuleAtPath ''foo'', Call_CompilerModule 0,
                   Call_loadModuleAtPath ''bar'', Call_CompilerModule 1,
                   Call_applyMutation sample_point1, Call_CompilerModule 1,
                   Call_revertMutation sample_point1, Call_runTest ''test_main'' [1100, 1201],
                   Call_applyMutation sample_point2, Call_CompilerModule 1,
                   Call_revertMutation sample_point2,
                   Call_runTest ''test_main'' [1100, 1201, 1202]]\<rparr>"
  by code_simp

section \<open>Properties of the junk detector\<close>

text \<open>
  C5. A mutation point whose Source Location is null is junk, whatever its mutator kind:
  \<^verbatim>\<open>isJunk\<close> returns true and leaves the detector as it was.
\<close>

theorem isJunk_null_location:
  "sourceLocation point = None \<Longrightarrow> isJunk clang det point = Inr (True, det)"
  by (simp add: isJunk_def)

theorem isJunk_null_location_witness:
  "sourceLocation point_without_location = None
   \<and> isJunk sample_clang sample_detector point_without_location = Inr (True, sample_detector)"
  using isJunk_null_location [of point_without_location sample_clang sample_detector]
  by (simp add: point_without_location_def)

text \<open>
  C6, as the code has it. Take a point of kind ConditionalsBoundary, MathAdd or MathSub
  with a Source Location, for which \<^verbatim>\<open>findAST\<close> gives a loaded AST. If no entry of the
  AST's file table bears the path of the location, \<^verbatim>\<open>findFileEntry\<close> returns null and
  the assertion \<^verbatim>\<open>assert(file)\<close> stops the detector: \<^verbatim>\<open>isJunk\<close> returns no verdict, and
  so does not return true.
\<close>

theorem isJunk_no_file_entry:
  assumes "sourceLocation point = Some sl"
    and "mutatorKind point \<in> {ConditionalsBoundaryMutator, MathAddMutator, MathSubMutator}"
    and "findAST clang det point = Inr (Some ast, det')"
    and "\<forall>f \<in> set (fileinfo ast). getName f \<noteq> filePath sl"
  shows "isJunk clang det point = Inl (AssertionFailed ''file'')"
proof -
  have "find (\<lambda>f. getName f = filePath sl) (fileinfo ast) = None"
    using assms(4) by (simp add: find_None_iff)
  then have "isJunkVisiting visit clang det point sl = Inl (AssertionFailed ''file'')" for visit
    using assms(1) assms(3) by (simp add: isJunkVisiting_def findFileEntry_def)
  then show ?thesis using assms(1) assms(2)
    by (auto simp: isJunk_def isJunkBoundaryConditional_def isJunkMathAdd_def isJunkMathSub_def)
qed

theorem isJunk_no_file_entry_witness:
  "find (\<lambda>f. getName f = ''sum.h'') (fileinfo sample_ast) = None
   \<and> isJunk sample_clang sample_detector point_in_header = Inl (AssertionFailed ''file'')"
proof -
  have f: "findAST sample_clang sample_detector point_in_header
       = Inr (Some sample_ast, sample_detector_loaded)"
    by (rule findAST_sample) (simp_all add: point_in_header_def)
  have s: "sourceLocation point_in_header = Some \<lparr>filePath = ''sum.h'', line = 1, column = 7\<rparr>"
    and k: "mutatorKind point_in_header
              \<in> {ConditionalsBoundaryMutator, MathAddMutator, MathSubMutator}"
    by (simp_all add: point_in_header_def)
  have n: "\<forall>f \<in> set (fileinfo sample_ast).
             getName f \<noteq> filePath \<lparr>filePath = ''sum.h'', line = 1, column = 7\<rparr>"
    by (simp add: sample_ast_def sample_file_def)
  show ?thesis using isJunk_no_file_entry [OF s k f n] n by (simp add: find_None_iff)
qed

text \<open>
  The MathAdd point of the sample whose location is in \<^verbatim>\<open>sum.h\<close>: the AST of \<^verbatim>\<open>sum.c\<close>
  is loaded, its file table has the one entry \<^verbatim>\<open>sum.c\<close>, and \<^verbatim>\<open>isJunk\<close> ends in the
  failed assertion instead of the answer true.
\<close>

theorem isJunk_missing_file_counterexample:
  "sourceLocation point_in_header = Some \<lparr>filePath = ''sum.h'', line = 1, column = 7\<rparr>
   \<and> mutatorKind point_in_header = MathAddMutator
   \<and> findAST sample_clang sample_detector point_in_header
       = Inr (Some sample_ast, sample_detector_loaded)
   \<and> map getName (fileinfo sample_ast) = [''sum.c'']
   \<and> isJunk sample_clang sample_detector point_in_header = Inl (AssertionFailed ''file'')"
proof -
  have f: "findAST sample_clang sample_detector point_in_header
       = Inr (Some sample_ast, sample_detector_loaded)"
    by (rule findAST_sample) (simp_all add: point_in_header_def)
  have s: "sourceLocation point_in_header = Some \<lparr>filePath = ''sum.h'', line = 1, column = 7\<rparr>"
    and k: "mutatorKind point_in_header = MathAddMutator"
    by (simp_all add: point_in_header_def)
  have "isJunk sample_clang sample_detector point_in_header
          = isJunkVisiting MathAddVisitor_Visit sample_clang sample_detector point_in_header
              \<lparr>filePath = ''sum.h'', line = 1, column = 7\<rparr>"
    by (simp add: isJunk_def isJunkMathAdd_def s k)
  also have "\<dots> = Inl (AssertionFailed ''file'')"
    by (simp add: isJunkVisiting_def f findFileEntry_def s sample_ast_def sample_file_def)
  finally show ?thesis using f s k by (simp add: sample_ast_def sample_file_def)
qed

text \<open>
  C7. Take a call of \<^verbatim>\<open>isJunk\<close> that reaches its visitor: the point has a Source
  Location and one of the three kinds, \<open>visit\<close> is the visitor of that kind, the AST is
  loaded, the file entry is found and valid, and the location \<open>loc\<close> obtained from the
  AST is valid, as the detector asserts before it builds the visitor. Let the ranges of the
  kind that the walk meets be valid ranges, and \<open>cands\<close> those of them that contain
  \<open>loc\<close>, in the order of the walk. Then the walk ends without a failed assertion; if
  there are candidates, the visitor holds the one of smallest length (end offset minus
  begin offset), the first of them among candidates of equal length; a range is found
  exactly if there is a candidate; and the point is junk exactly if there is none.
\<close>

theorem visitor_keeps_first_smallest_range:
  assumes "sourceLocation point = Some sl"
    and "(mutatorKind point, visit) \<in>
           {(ConditionalsBoundaryMutator, ConditionalsBoundaryVisitor_Visit),
            (MathAddMutator, MathAddVisitor_Visit),
            (MathSubMutator, MathSubVisitor_Visit)}"
    and "findAST clang det point = Inr (Some ast, det')"
    and "find (\<lambda>f. getName f = filePath sl) (fileinfo ast) = Some file"
    and "isValid file"
    and "loc = getLocation ast file (line sl) (column sl)"
    and "loc_isValid loc"
    and "sm = getSourceManager ast"
    and "nodes = getTranslationUnitDecl ast"
    and "\<forall>r \<in> set (rangesOfKind (mutatorKind point) nodes). range_isValid r"
    and "cands = matchingRanges sm loc (mutatorKind point) nodes"
  shows "\<exists>v. TraverseDecl (visit sm loc) SourceRange_default nodes = Inr v
           \<and> (cands \<noteq> [] \<longrightarrow> firstSmallestOf sm cands v)
           \<and> (foundRange v \<longleftrightarrow> cands \<noteq> [])
           \<and> isJunk clang det point = Inr (\<not> foundRange v, det')"
proof -
  obtain v where v: "TraverseDecl (visit sm loc) SourceRange_default nodes = Inr v"
    "cands \<noteq> [] \<longrightarrow> firstSmallestOf sm cands v" "foundRange v \<longleftrightarrow> cands \<noteq> []"
    using Traverse_selects [where visit="visit sm loc" and k="mutatorKind point" and sm=sm
          and loc=loc and nodes=nodes, OF visit_of_kind [OF assms(2)] assms(7) assms(10)]
      assms(11)
    by blast
  have "isJunk clang det point = Inr (\<not> foundRange v, det')"
    using isJunk_dispatch [OF assms(1) assms(2)]
      isJunkVisiting_verdict [OF assms(3) assms(1) assms(4) assms(5),
        where visit=visit and v=v]
      assms(6-9) v(1)
    by simp
  then show ?thesis using v by blast
qed

theorem visitor_keeps_first_smallest_range_witness:
  "\<exists>v. TraverseDecl (MathAddVisitor_Visit sample_sm 107) SourceRange_default sample_nodes = Inr v
     \<and> firstSmallestOf sample_sm
         [\<lparr>getBegin = 100, getEnd = 120\<rparr>, \<lparr>getBegin = 105, getEnd = 110\<rparr>,
          \<lparr>getBegin = 106, getEnd = 111\<rparr>] v
     \<and> isJunk sample_clang sample_detector point_in_sum = Inr (False, sample_detector_loaded)"
proof -
  let ?sl = "\<lparr>filePath = ''sum.c'', line = 1, column = 7\<rparr>"
  have s: "sourceLocation point_in_sum = Some ?sl" by (simp add: point_in_sum_def)
  have k: "(mutatorKind point_in_sum, MathAddVisitor_Visit) \<in>
           {(ConditionalsBoundaryMutator, ConditionalsBoundaryVisitor_Visit),
            (MathAddMutator, MathAddVisitor_Visit),
            (MathSubMutator, MathSubVisitor_Visit)}"
    by (simp add: point_in_sum_def)
  have f: "findAST sample_clang sample_detector point_in_sum
       = Inr (Some sample_ast, sample_detector_loaded)"
    by (rule findAST_sample) (simp_all add: point_in_sum_def)
  have e: "find (\<lambda>f. getName f = filePath ?sl) (fileinfo sample_ast) = Some sample_file"
    by (simp add: sample_ast_def sample_file_def)
  have v: "isValid sample_file" by (simp add: sample_file_def)
  have l: "(107 :: clang_SourceLocation)
             = getLocation sample_ast sample_file (line ?sl) (column ?sl)"
    by (simp add: sample_ast_def)
  have lv: "loc_isValid (107 :: clang_SourceLocation)" by (simp add: loc_isValid_def)
  have m: "sample_sm = getSourceManager sample_ast"
    "sample_nodes = getTranslationUnitDecl sample_ast"
    by (simp_all add: sample_ast_def)
  have r: "\<forall>r \<in> set (rangesOfKind (mutatorKind point_in_sum) sample_nodes). range_isValid r"
    by (simp add: point_in_sum_def rangesOfKind_def map_filter_simps sample_nodes_def
        range_isValid_def loc_isValid_def)
  have c: "[\<lparr>getBegin = 100, getEnd = 120\<rparr>, \<lparr>getBegin = 105, getEnd = 110\<rparr>,
      \<lparr>getBegin = 106, getEnd = 111\<rparr>]
      = matchingRanges sample_sm 107 (mutatorKind point_in_sum) sample_nodes"
    using sample_matching by (simp add: point_in_sum_def)
  show ?thesis
    using visitor_keeps_first_smallest_range [OF s k f e v l lv m r c] by auto
qed

text \<open>
  C10. Take a point of kind ConditionalsBoundary, MathAdd or MathSub for which the
  detector reaches its visitor (the AST is loaded, the file entry found and valid). If the
  clang location \<open>loc\<close> of the point is no file location, as inside a macro expansion,
  then \<^verbatim>\<open>locationInRange\<close> is false for every range \<open>r\<close>, and \<^verbatim>\<open>isJunk\<close> returns true.
\<close>

theorem isJunk_location_in_macro:
  assumes "sourceLocation point = Some sl"
    and "(mutatorKind point, visit) \<in>
           {(ConditionalsBoundaryMutator, ConditionalsBoundaryVisitor_Visit),
            (MathAddMutator, MathAddVisitor_Visit),
            (MathSubMutator, MathSubVisitor_Visit)}"
    and "findAST clang det point = Inr (Some ast, det')"
    and "find (\<lambda>f. getName f = filePath sl) (fileinfo ast) = Some file"
    and "isValid file"
    and "loc = getLocation ast file (line sl) (column sl)"
    and "\<not> loc_isFileID loc"
  shows "locationInRange (getSourceManager ast) r loc = Inr False
       \<and> isJunk clang det point = Inr (True, det')"
proof -
  have t: "TraverseDecl (visit (getSourceManager ast) loc) SourceRange_default
             (getTranslationUnitDecl ast) = Inr SourceRange_default"
    using Traverse_macro [OF visit_of_kind [OF assms(2)] assms(7)] by simp
  have "isJunk clang det point = Inr (\<not> foundRange SourceRange_default, det')"
    using isJunk_dispatch [OF assms(1) assms(2)]
      isJunkVisiting_verdict [OF assms(3) assms(1) assms(4) assms(5),
        where visit=visit and v=SourceRange_default]
      macro_loc_valid [OF assms(7)] t assms(6)
    by simp
  then show ?thesis using not_found_default locationInRange_macro [OF assms(7)] by simp
qed

theorem isJunk_location_in_macro_witness:
  "\<not> loc_isFileID (getLocation sample_ast sample_file 2 3)
   \<and> isJunk sample_clang sample_detector point_in_macro = Inr (True, sample_detector_loaded)"
proof -
  let ?sl = "\<lparr>filePath = ''sum.c'', line = 2, column = 3\<rparr>"
  have s: "sourceLocation point_in_macro = Some ?sl" by (simp add: point_in_macro_def)
  have k: "(mutatorKind point_in_macro, MathSubVisitor_Visit) \<in>
           {(ConditionalsBoundaryMutator, ConditionalsBoundaryVisitor_Visit),
            (MathAddMutator, MathAddVisitor_Visit),
            (MathSubMutator, MathSubVisitor_Visit)}"
    by (simp add: point_in_macro_def)
  have f: "findAST sample_clang sample_detector point_in_macro
       = Inr (Some sample_ast, sample_detector_loaded)"
    by (rule findAST_sample) (simp_all add: point_in_macro_def)
  have e: "find (\<lambda>f. getName f = filePath ?sl) (fileinfo sample_ast) = Some sample_file"
    by (simp add: sample_ast_def sample_file_def)
  have v: "isValid sample_file" by (simp add: sample_file_def)
  have l: "(0x80000005 :: clang_SourceLocation)
             = getLocation sample_ast sample_file (line ?sl) (column ?sl)"
    by (simp add: sample_ast_def)
  have m: "\<not> loc_isFileID (0x80000005 :: clang_SourceLocation)"
    by (simp add: loc_isFileID_def)
  show ?thesis
    using isJunk_location_in_macro [OF s k f e v l m] m l by simp
qed

section \<open>Properties of the driver\<close>

text \<open>
  C1, on the sample run. The testee \<^verbatim>\<open>sum\<close> of module 1 has two mutation points.
  \<^verbatim>\<open>AllButOne\<close> gives the one baseline object 1100 of module 0. The test is run twice:
  for the first point with that object and the object 1201 of the first mutant, for the
  second point with both of these and the object 1202 of the second mutant.
  \<open>ObjectFiles\<close> is filled before the loop over the points and every iteration appends
  to it, so the object of the first mutant is among the objects of the second run.
\<close>

theorem object_files_accumulate:
  "(case Run sample_collaborators [''foo'', ''bar''] [] of
      Inl e \<Rightarrow> None
    | Inr st \<Rightarrow> Some (AllButOne (InnerCache st) 1, runTestCalls (calls st))) =
   Some ([1100],
         [(''test_main'', [1100, 1201]), (''test_main'', [1100, 1201, 1202])])"
  by code_simp

text \<open>
  C2, on the first seed scenario. The finder returns the test \<^verbatim>\<open>test_trivial\<close>, whose
  testee has no mutation point. \<^verbatim>\<open>Run\<close> loads and compiles the two modules and makes no
  other call: the test is never run against the baseline objects 1100 and 1200.
\<close>

theorem no_baseline_run:
  "findTests trivial_collaborators [100, 200] = [''test_trivial'']
   \<and> Run trivial_collaborators [''foo'', ''bar''] [] =
       Inr \<lparr>Ctx = [100, 200], InnerCache = [(0, 1100), (1, 1200)],
            calls = [Call_loadModuleAtPath ''foo'', Call_CompilerModule 0,
                     Call_loadModuleAtPath ''bar'', Call_CompilerModule 1]\<rparr>"
  by code_simp

text \<open>
  C4, as the code has it. For a testee, the driver applies and reverts every mutation
  point that \<^verbatim>\<open>findMutationPoints\<close> returns, in the order of the finder and leaving none
  out, and runs the test once for each of them. No junk detector is asked.
\<close>

theorem every_mutation_point_is_run:
  assumes "Run_testee cb Test Testee st = Inr st'"
  shows "mutationCalls (calls st') =
           mutationCalls (calls st)
             @ concat (map (\<lambda>P. [Call_applyMutation P, Call_revertMutation P])
                         (findMutationPoints cb (Ctx st) Testee))
       \<and> map fst (runTestCalls (calls st')) =
           map fst (runTestCalls (calls st))
             @ replicate (length (findMutationPoints cb (Ctx st) Testee)) Test"
  using Run_testee_effect [OF assms] by simp

theorem every_mutation_point_is_run_witness:
  "\<exists>st'. Run_testee sample_collaborators ''test_main'' (''sum'', 1) sample_loaded = Inr st'
     \<and> mutationCalls (calls st') =
         [Call_applyMutation sample_point1, Call_revertMutation sample_point1,
          Call_applyMutation sample_point2, Call_revertMutation sample_point2]
     \<and> map fst (runTestCalls (calls st')) = [''test_main'', ''test_main'']"
  using every_mutation_point_is_run [OF sample_testee_run] sample_testee_run
  by (simp add: sample_loaded_def sample_collaborators_def numeral_2_eq_2)

text \<open>
  The first mutation point of the sample has no Source Location, so \<^verbatim>\<open>isJunk\<close> is true
  for it. The driver applies it all the same, and runs the test on its mutant.
\<close>

theorem junk_point_is_run_counterexample:
  "isJunk sample_clang sample_detector (fst sample_point1) = Inr (True, sample_detector)
   \<and> (case Run sample_collaborators [''foo'', ''bar''] [] of
        Inl e \<Rightarrow> False
      | Inr st \<Rightarrow> mutationCalls (calls st) =
                   [Call_applyMutation sample_point1, Call_revertMutation sample_point1,
                    Call_applyMutation sample_point2, Call_revertMutation sample_point2]
                 \<and> hd (runTestCalls (calls st)) = (''test_main'', [1100, 1201]))"
proof -
  have "isJunk sample_clang sample_detector (fst sample_point1) = Inr (True, sample_detector)"
    by (simp add: isJunk_def sample_point1_def point_without_location_def)
  then show ?thesis by (simp add: sample_Run)
qed

text \<open>
  C8. Let every mutation point undo with \<^verbatim>\<open>revertMutation\<close> what its
  \<^verbatim>\<open>applyMutation\<close> did (the round-trip law of the operators). Then within one test the
  driver applies the mutation points in the order of the finder, testee by testee, and
  reverts each before it applies the next; the IR of every module after the test is the IR
  before it; and so it is after the iteration of any single point.
\<close>

theorem mutation_points_in_order_and_reverted:
  assumes "\<forall>p ctx. revertMutation cb p (applyMutation cb p ctx) = ctx"
    and "Run_test cb Test st = Inr st'"
  shows "mutationCalls (calls st') =
           mutationCalls (calls st)
             @ concat (map (\<lambda>Testee.
                  concat (map (\<lambda>P. [Call_applyMutation P, Call_revertMutation P])
                            (findMutationPoints cb (Ctx st) Testee)))
                  (findTestees cb (Ctx st) Test))
       \<and> Ctx st' = Ctx st
       \<and> (Run_point cb Test Parent P s = Inr s' \<longrightarrow> Ctx (fst s') = Ctx (fst s))"
  using testeeLoop_reverted [OF assms(1)] assms(2)
    Run_point_effect(2) [of cb Test Parent P s s'] assms(1)
  by (auto simp: Run_test_def)

theorem mutation_points_in_order_and_reverted_witness:
  "\<exists>st'. Run_test sample_collaborators ''test_main'' sample_loaded = Inr st'
     \<and> mutationCalls (calls st') =
         [Call_applyMutation sample_point1, Call_revertMutation sample_point1,
          Call_applyMutation sample_point2, Call_revertMutation sample_point2]
     \<and> Ctx st' = Ctx sample_loaded"
  using mutation_points_in_order_and_reverted [OF sample_round_trip sample_test_run]
    sample_test_run
  by (simp add: sample_loaded_def sample_collaborators_def)

text \<open>
  C9. The cache is written in the loading loop only. No iteration for a mutation point
  changes it, so its transient object never enters the cache, and when \<^verbatim>\<open>Run\<close> ends the
  cache is the cache as it was after the last module was loaded and compiled.
\<close>

theorem cache_written_only_while_loading:
  assumes "Run cb BitcodePaths cache = Inr st"
  shows "(\<exists>loaded.
            loadModules cb BitcodePaths \<lparr>Ctx = [], InnerCache = cache, calls = []\<rparr> = Inr loaded
            \<and> testLoop cb (findTests cb (Ctx loaded)) loaded = Inr st
            \<and> InnerCache st = InnerCache loaded)
       \<and> (Run_point cb Test Parent P s = Inr s' \<longrightarrow> InnerCache (fst s') = InnerCache (fst s))"
proof -
  obtain loaded where l:
    "loadModules cb BitcodePaths \<lparr>Ctx = [], InnerCache = cache, calls = []\<rparr> = Inr loaded"
    "testLoop cb (findTests cb (Ctx loaded)) loaded = Inr st"
    using assms by (auto simp: Run_def split: sum.splits)
  have "InnerCache st = InnerCache loaded" using testLoop_cache [OF l(2)] .
  then show ?thesis
    using l Run_point_effect(1) [of cb Test Parent P s s'] by blast
qed

theorem cache_written_only_while_loading_witness:
  "\<exists>st. Run sample_collaborators [''foo'', ''bar''] [] = Inr st
     \<and> InnerCache st = [(0, 1100), (1, 1200)]"
  using cache_written_only_while_loading [OF sample_Run] sample_loading sample_Run
  by (simp add: sample_loaded_def)

end
